theory Spec2Isabelle
  imports Main "HOL-Library.Word" "HOL-Library.Multiset"
begin

section \<open>Data model (postflow.go)\<close>

text \<open>
  \<^verbatim>\<open>type ReactionType uint8\<close> is an 8-bit word with the unsigned order.  Go's \<^verbatim>\<open>int\<close>
  (the counters \<^verbatim>\<open>Comments\<close>, \<^verbatim>\<open>Shares\<close>, the reaction counts, \<^verbatim>\<open>Limit\<close> and
  \<^verbatim>\<open>Offset\<close>) is the signed 64-bit word of the usual platforms: \<open>+\<close> and \<open>-\<close> wrap
  around and the comparisons are the signed ones (\<open><s\<close>, read through \<open>sint\<close>).
  A \<^verbatim>\<open>time.Time\<close> is an instant on the integer line: \<^verbatim>\<open>Before\<close> is \<open><\<close>, \<^verbatim>\<open>After\<close> is
  \<open>>\<close>; the value of \<^verbatim>\<open>time.Now()\<close> is an argument of the operation that reads it.
\<close>

type_synonym ReactionType = "8 word"
type_synonym go_int = "64 word"
type_synonym Time = int

definition ReactionNone :: ReactionType where "ReactionNone = 0"
definition ReactionLike :: ReactionType where "ReactionLike = 1"
definition ReactionLove :: ReactionType where "ReactionLove = 2"
definition ReactionHaha :: ReactionType where "ReactionHaha = 3"
definition ReactionWow :: ReactionType where "ReactionWow = 4"
definition ReactionSad :: ReactionType where "ReactionSad = 5"
definition ReactionAngry :: ReactionType where "ReactionAngry = 6"

record Media =
  ID_M :: string
  Type_M :: "8 word"
  URL :: string
  ThumbnailURL :: string
  Description :: string
  Width :: go_int
  Height :: go_int
  Duration :: go_int
  FileSize :: "64 word"
  FileName :: string
  MimeType :: string
  CreatedAt_M :: Time

text \<open>
  \<^verbatim>\<open>Reactions map[ReactionType]int\<close> may be \<^verbatim>\<open>nil\<close>: \<open>None\<close> is the nil map, \<open>Some m\<close>
  an allocated one.
\<close>

record Post =
  ID :: string
  UserID :: string
  Content :: string
  Media :: "Media list"
  Tags :: "string list"
  CreatedAt :: Time
  UpdatedAt :: Time
  Reactions :: "(ReactionType \<rightharpoonup> go_int) option"
  Comments :: go_int
  Shares :: go_int
  Visibility :: string

record TimeRange =
  Start :: Time
  End :: Time

record PostFilter =
  UserID_F :: string
  Tags_F :: "string list"
  TimeRange :: "TimeRange option"
  Visibility_F :: string
  Limit :: go_int
  Offset :: go_int
  SortBy :: string
  SortOrder :: string

section \<open>The in-memory store (poststore.go)\<close>

datatype error =
    ErrPostNotFound
  | ErrPermissionDenied
  | ErrInvalidReaction
  | ErrorsNew string
  | SliceBoundsPanic
  | NilPointerPanic

record UserReaction =
  UserID_R :: string
  ReactionType :: ReactionType
  CreatedAt_R :: Time

text \<open>
  The store keeps pointers to the posts it is given; the model keeps the post's value at
  the time of the call.  This is the store's behaviour for callers that do not write to a
  post object, or to its \<^verbatim>\<open>Reactions\<close> map, after handing it to the store, and that give
  every post a map of its own.  The mutex is left out: every operation is one function
  call.
\<close>

record InMemoryPostStore =
  posts :: "string \<rightharpoonup> Post"
  reactions :: "string \<rightharpoonup> (string \<rightharpoonup> UserReaction)"
  userPosts :: "string \<rightharpoonup> string list"
  tagPosts :: "string \<rightharpoonup> string list"

definition NewInMemoryPostStore :: InMemoryPostStore where
  "NewInMemoryPostStore =
     \<lparr>posts = Map.empty, reactions = Map.empty, userPosts = Map.empty, tagPosts = Map.empty\<rparr>"

text \<open>Reading a slice-valued map at a missing key gives the nil slice.\<close>

definition index_of :: "(string \<rightharpoonup> string list) \<Rightarrow> string \<Rightarrow> string list" where
  "index_of m k = (case m k of None \<Rightarrow> [] | Some xs \<Rightarrow> xs)"

text \<open>\<^verbatim>\<open>m[k] = append(m[k], pid)\<close>\<close>

definition append_id :: "(string \<rightharpoonup> string list) \<Rightarrow> string \<Rightarrow> string \<Rightarrow> (string \<rightharpoonup> string list)" where
  "append_id m k pid = m(k \<mapsto> index_of m k @ [pid])"

text \<open>
  The removal loop: the first \<open>i\<close> with \<^verbatim>\<open>m[k][i] == pid\<close> is cut out
  (\<^verbatim>\<open>append(xs[:i], xs[i+1:]...)\<close>) and the loop breaks; without a match the map is not
  written.
\<close>

definition remove_id :: "(string \<rightharpoonup> string list) \<Rightarrow> string \<Rightarrow> string \<Rightarrow> (string \<rightharpoonup> string list)" where
  "remove_id m k pid =
     (if pid \<in> set (index_of m k) then m(k \<mapsto> remove1 pid (index_of m k)) else m)"

text \<open>The update path's \<^verbatim>\<open>found\<close> loop: append unless the ID is already listed.\<close>

definition add_id_if_absent :: "(string \<rightharpoonup> string list) \<Rightarrow> string \<Rightarrow> string \<Rightarrow> (string \<rightharpoonup> string list)" where
  "add_id_if_absent m k pid = (if pid \<in> set (index_of m k) then m else append_id m k pid)"

definition SavePost :: "InMemoryPostStore \<Rightarrow> Post \<Rightarrow> error option \<times> InMemoryPostStore" where
  "SavePost s post =
     (case posts s (ID post) of
        None \<Rightarrow>
          let s1 = s\<lparr>posts := (posts s)(ID post \<mapsto> post)\<rparr>;
              s2 = s1\<lparr>userPosts := append_id (userPosts s1) (UserID post) (ID post)\<rparr>;
              s3 = s2\<lparr>tagPosts :=
                     foldl (\<lambda>tp tag. append_id tp tag (ID post)) (tagPosts s2) (Tags post)\<rparr>
          in (None, s3)
      | Some oldPost \<Rightarrow>
          let s1 = s\<lparr>tagPosts :=
                     foldl (\<lambda>tp tag. remove_id tp tag (ID post)) (tagPosts s) (Tags oldPost)\<rparr>;
              s2 = s1\<lparr>tagPosts :=
                     foldl (\<lambda>tp tag. add_id_if_absent tp tag (ID post)) (tagPosts s1) (Tags post)\<rparr>;
              s3 = s2\<lparr>posts := (posts s2)(ID post \<mapsto> post)\<rparr>
          in (None, s3))"

definition GetPost :: "InMemoryPostStore \<Rightarrow> string \<Rightarrow> error + Post" where
  "GetPost s postID =
     (case posts s postID of None \<Rightarrow> Inl ErrPostNotFound | Some post \<Rightarrow> Inr post)"

definition DeletePost :: "InMemoryPostStore \<Rightarrow> string \<Rightarrow> string \<Rightarrow> error option \<times> InMemoryPostStore" where
  "DeletePost s postID userID =
     (case posts s postID of
        None \<Rightarrow> (Some ErrPostNotFound, s)
      | Some post \<Rightarrow>
          if UserID post \<noteq> userID then (Some ErrPermissionDenied, s)
          else
            let s1 = s\<lparr>userPosts := remove_id (userPosts s) userID postID\<rparr>;
                s2 = s1\<lparr>tagPosts :=
                       foldl (\<lambda>tp tag. remove_id tp tag postID) (tagPosts s1) (Tags post)\<rparr>;
                s3 = s2\<lparr>reactions := (reactions s2)(postID := None)\<rparr>;
                s4 = s3\<lparr>posts := (posts s3)(postID := None)\<rparr>
            in (None, s4))"

subsection \<open>Reactions\<close>

text \<open>\<^verbatim>\<open>post.Reactions[k]\<close>: the zero value for a missing key and for the nil map.\<close>

definition count_of :: "(ReactionType \<rightharpoonup> go_int) option \<Rightarrow> ReactionType \<Rightarrow> go_int" where
  "count_of r k = (case r of None \<Rightarrow> 0 | Some m \<Rightarrow> (case m k of None \<Rightarrow> 0 | Some c \<Rightarrow> c))"

text \<open>\<^verbatim>\<open>if post.Reactions == nil { post.Reactions = make(map[ReactionType]int) }\<close>\<close>

definition make_if_nil :: "(ReactionType \<rightharpoonup> go_int) option \<Rightarrow> (ReactionType \<rightharpoonup> go_int)" where
  "make_if_nil r = (case r of None \<Rightarrow> Map.empty | Some m \<Rightarrow> m)"

definition sumReactions :: "(ReactionType \<rightharpoonup> go_int) option \<Rightarrow> go_int" where
  "sumReactions r =
     (case r of
        None \<Rightarrow> 0
      | Some m \<Rightarrow> (\<Sum>k \<in> dom m. (case m k of None \<Rightarrow> 0 | Some c \<Rightarrow> c)))"

text \<open>The ledger of a post: \<^verbatim>\<open>s.reactions[postID]\<close>, the nil map when the key is missing.\<close>

definition ledger :: "InMemoryPostStore \<Rightarrow> string \<Rightarrow> (string \<rightharpoonup> UserReaction)" where
  "ledger s postID = (case reactions s postID of None \<Rightarrow> Map.empty | Some m \<Rightarrow> m)"

definition SaveReaction ::
  "InMemoryPostStore \<Rightarrow> string \<Rightarrow> string \<Rightarrow> ReactionType \<Rightarrow> Time \<Rightarrow> error option \<times> InMemoryPostStore" where
  "SaveReaction s postID userID reactionType now =
     (case posts s postID of
        None \<Rightarrow> (Some ErrPostNotFound, s)
      | Some post \<Rightarrow>
          if reactionType \<le> ReactionNone \<or> reactionType > ReactionAngry
          then (Some ErrInvalidReaction, s)
          else
            let s1 = (if reactions s postID = None
                      then s\<lparr>reactions := (reactions s)(postID \<mapsto> Map.empty)\<rparr> else s)
            in (case ledger s1 postID userID of
                  Some existingReaction \<Rightarrow>
                    if ReactionType existingReaction \<noteq> reactionType then
                      let r0 = make_if_nil (Reactions post);
                          oldCount = count_of (Some r0) (ReactionType existingReaction);
                          r1 = (if 0 <s oldCount
                                then r0(ReactionType existingReaction \<mapsto> oldCount - 1) else r0);
                          r2 = r1(reactionType \<mapsto> count_of (Some r1) reactionType + 1);
                          s2 = s1\<lparr>posts := (posts s1)(postID \<mapsto> post\<lparr>Reactions := Some r2\<rparr>)\<rparr>;
                          s3 = s2\<lparr>reactions := (reactions s2)(postID \<mapsto>
                                 (ledger s2 postID)(userID \<mapsto>
                                   existingReaction\<lparr>ReactionType := reactionType, CreatedAt_R := now\<rparr>))\<rparr>
                      in (None, s3)
                    else (None, s1)
                | None \<Rightarrow>
                    let s2 = s1\<lparr>reactions := (reactions s1)(postID \<mapsto>
                               (ledger s1 postID)(userID \<mapsto>
                                 \<lparr>UserID_R = userID, ReactionType = reactionType, CreatedAt_R = now\<rparr>))\<rparr>;
                        r0 = make_if_nil (Reactions post);
                        r1 = r0(reactionType \<mapsto> count_of (Some r0) reactionType + 1);
                        s3 = s2\<lparr>posts := (posts s2)(postID \<mapsto> post\<lparr>Reactions := Some r1\<rparr>)\<rparr>
                    in (None, s3)))"

definition DeleteReaction ::
  "InMemoryPostStore \<Rightarrow> string \<Rightarrow> string \<Rightarrow> ReactionType \<Rightarrow> error option \<times> InMemoryPostStore" where
  "DeleteReaction s postID userID reactionType =
     (case posts s postID of
        None \<Rightarrow> (Some ErrPostNotFound, s)
      | Some post \<Rightarrow>
          (case reactions s postID of
             None \<Rightarrow> (None, s)
           | Some postReactions \<Rightarrow>
               (case postReactions userID of
                  None \<Rightarrow> (None, s)
                | Some userReaction \<Rightarrow>
                    if ReactionType userReaction \<noteq> reactionType then (None, s)
                    else
                      let s1 = s\<lparr>reactions := (reactions s)(postID \<mapsto> postReactions(userID := None))\<rparr>
                      in (case Reactions post of
                            None \<Rightarrow> (None, s1)
                          | Some m \<Rightarrow>
                              if 0 <s count_of (Some m) reactionType
                              then (None, s1\<lparr>posts := (posts s1)(postID \<mapsto>
                                      post\<lparr>Reactions := Some (m(reactionType \<mapsto>
                                        count_of (Some m) reactionType - 1))\<rparr>)\<rparr>)
                              else (None, s1)))))"

subsection \<open>Queries\<close>

text \<open>
  Go enumerates the keys of a map in an order the runtime chooses.  The queries take that
  order as the argument \<open>ord\<close>: the keys of the map are visited in the order in which
  \<open>ord\<close> lists them, each once.
\<close>

definition range_keys :: "string list \<Rightarrow> (string \<rightharpoonup> 'v) \<Rightarrow> string list" where
  "range_keys ord m = filter (\<lambda>k. m k \<noteq> None) (remdups ord)"

text \<open>
  \<^verbatim>\<open>sort.Slice\<close> of the standard library, as the insertion sort it runs on slices of at
  most 12 elements: each element moves left while \<^verbatim>\<open>less(data[j], data[j-1])\<close> (\<open>lt\<close> is
  \<^verbatim>\<open>less\<close>).  \<open>bubble\<close> takes the sorted prefix in reverse (nearest neighbour first).
  The library's algorithm for longer slices is not modelled.
\<close>

fun bubble :: "('a \<Rightarrow> 'a \<Rightarrow> bool) \<Rightarrow> 'a \<Rightarrow> 'a list \<Rightarrow> 'a list" where
  "bubble lt x [] = [x]"
| "bubble lt x (y # ys) = (if lt x y then y # bubble lt x ys else x # y # ys)"

definition sort_Slice :: "('a \<Rightarrow> 'a \<Rightarrow> bool) \<Rightarrow> 'a list \<Rightarrow> 'a list" where
  "sort_Slice lt xs = rev (foldl (\<lambda>acc x. bubble lt x acc) [] xs)"

text \<open>
  The pagination block: \<^verbatim>\<open>result[offset:end]\<close> panics when \<open>offset\<close> is negative or
  beyond \<open>end\<close>.
\<close>

definition paginate :: "'a list \<Rightarrow> go_int \<Rightarrow> go_int \<Rightarrow> error + 'a list" where
  "paginate result limit offset =
     (if 0 <s limit then
        let end0 = sint (offset + limit);
            end1 = (if int (length result) < end0 then int (length result) else end0)
        in if sint offset < int (length result) then
             (if sint offset < 0 \<or> end1 < sint offset then Inl SliceBoundsPanic
              else Inr (take (nat end1 - nat (sint offset)) (drop (nat (sint offset)) result)))
           else Inr []
      else Inr result)"

text \<open>\<^verbatim>\<open>candidateIDs[pid]\<close> on a map that may be nil.\<close>

definition candidate_has :: "(string \<rightharpoonup> bool) option \<Rightarrow> string \<Rightarrow> bool" where
  "candidate_has c pid =
     (case c of None \<Rightarrow> False | Some m \<Rightarrow> (case m pid of None \<Rightarrow> False | Some b \<Rightarrow> b))"

definition user_candidates :: "InMemoryPostStore \<Rightarrow> PostFilter \<Rightarrow> (string \<rightharpoonup> bool) option" where
  "user_candidates s filter' =
     (if UserID_F filter' \<noteq> []
      then Some (foldl (\<lambda>c pid. c(pid \<mapsto> True)) Map.empty
                   (index_of (userPosts s) (UserID_F filter')))
      else None)"

text \<open>The loop over \<^verbatim>\<open>filter.Tags\<close>; \<open>i\<close> is the index of the tag at the head.\<close>

fun tag_candidates ::
  "InMemoryPostStore \<Rightarrow> (string \<rightharpoonup> bool) option \<Rightarrow> nat \<Rightarrow> string list \<Rightarrow> (string \<rightharpoonup> bool)
     \<Rightarrow> (string \<rightharpoonup> bool)" where
  "tag_candidates s candidateIDs i [] tagCandidates = tagCandidates"
| "tag_candidates s candidateIDs i (tag # tags) tagCandidates =
     tag_candidates s candidateIDs (Suc i) tags
       (foldl (\<lambda>tc pid. if i = 0 \<or> candidate_has candidateIDs pid then tc(pid \<mapsto> True) else tc)
          tagCandidates (index_of (tagPosts s) tag))"

definition candidates :: "InMemoryPostStore \<Rightarrow> PostFilter \<Rightarrow> (string \<rightharpoonup> bool) option" where
  "candidates s filter' =
     (let candidateIDs = user_candidates s filter'
      in if Tags_F filter' \<noteq> []
         then Some (tag_candidates s candidateIDs 0 (Tags_F filter') Map.empty)
         else candidateIDs)"

text \<open>The visibility and time-range tests of the two loops (\<open>False\<close> is \<^verbatim>\<open>continue\<close>).\<close>

definition passes :: "PostFilter \<Rightarrow> Post \<Rightarrow> bool" where
  "passes filter' post =
     (if Visibility_F filter' \<noteq> [] \<and> Visibility post \<noteq> Visibility_F filter' then False
      else (case TimeRange filter' of
              None \<Rightarrow> True
            | Some tr \<Rightarrow>
                if \<not> Start tr < CreatedAt post then False
                else if \<not> CreatedAt post < End tr then False
                else True))"

definition collect :: "InMemoryPostStore \<Rightarrow> PostFilter \<Rightarrow> string list \<Rightarrow> Post list" where
  "collect s filter' ids =
     foldl (\<lambda>result id.
              case posts s id of
                None \<Rightarrow> result
              | Some post \<Rightarrow> if passes filter' post then result @ [post] else result)
       [] ids"

definition selected :: "InMemoryPostStore \<Rightarrow> PostFilter \<Rightarrow> string list \<Rightarrow> Post list" where
  "selected s filter' ord =
     (case candidates s filter' of
        None \<Rightarrow> collect s filter' (range_keys ord (posts s))
      | Some candidateIDs \<Rightarrow> collect s filter' (range_keys ord candidateIDs))"

text \<open>The comparison function handed to \<^verbatim>\<open>sort.Slice\<close>.\<close>

definition sort_less :: "PostFilter \<Rightarrow> Post \<Rightarrow> Post \<Rightarrow> bool" where
  "sort_less filter' a b =
     (let lt =
        (if SortBy filter' = ''created_at'' then CreatedAt a < CreatedAt b
         else if SortBy filter' = ''updated_at'' then UpdatedAt a < UpdatedAt b
         else if SortBy filter' = ''reactions''
           then sumReactions (Reactions a) <s sumReactions (Reactions b)
         else if SortBy filter' = ''comments'' then Comments a <s Comments b
         else if SortBy filter' = ''shares'' then Shares a <s Shares b
         else CreatedAt a < CreatedAt b)
      in if SortOrder filter' = ''desc'' then \<not> lt else lt)"

definition ListPosts :: "InMemoryPostStore \<Rightarrow> PostFilter \<Rightarrow> string list \<Rightarrow> error + Post list" where
  "ListPosts s filter' ord =
     (let result = selected s filter' ord;
          result = (if SortBy filter' \<noteq> [] then sort_Slice (sort_less filter') result else result)
      in paginate result (Limit filter') (Offset filter'))"

definition engagement :: "Post \<Rightarrow> go_int" where
  "engagement post = sumReactions (Reactions post) + Comments post + Shares post"

definition GetTrendingPosts :: "InMemoryPostStore \<Rightarrow> go_int \<Rightarrow> string list \<Rightarrow> error + Post list" where
  "GetTrendingPosts s limit ord =
     (let result = foldl (\<lambda>result id.
                      case posts s id of
                        None \<Rightarrow> result
                      | Some post \<Rightarrow>
                          if Visibility post = ''public'' then result @ [post] else result)
                    [] (range_keys ord (posts s));
          result = sort_Slice (\<lambda>a b. engagement b <s engagement a) result
      in if 0 <s limit \<and> sint limit < int (length result)
         then Inr (take (nat (sint limit)) result)
         else Inr result)"

section \<open>The GORM store's ORDER BY clause (gorm_poststore.go)\<close>

text \<open>The string \<^verbatim>\<open>GormPostStore.ListPosts\<close> passes to \<^verbatim>\<open>query.Order\<close>.\<close>

definition gorm_order :: "PostFilter \<Rightarrow> string" where
  "gorm_order filter' =
     (if SortBy filter' \<noteq> [] then
        let sortField =
              (if SortBy filter' = ''created_at'' \<or> SortBy filter' = ''updated_at''
                  \<or> SortBy filter' = ''comments'' \<or> SortBy filter' = ''shares''
               then SortBy filter'
               else if SortBy filter' = ''reactions'' then ''created_at''
               else ''created_at'');
            sortOrder = (if SortOrder filter' = ''asc'' then ''ASC'' else ''DESC'')
        in sortField @ '' '' @ sortOrder
      else ''created_at DESC'')"

section \<open>The post manager (postmanager.go)\<close>

text \<open>
  \<^verbatim>\<open>PostManagerImpl\<close> holds a \<^verbatim>\<open>PostStore\<close>; \<open>save\<close> is that store's \<^verbatim>\<open>SavePost\<close>.  The post
  is written through the caller's pointer, so the post as left by the call is part of the
  result.  \<open>uuid\<close> is the string \<^verbatim>\<open>uuid.New().String()\<close> returns, read only when the post
  has no ID.
\<close>

definition CreatePost ::
  "('st \<Rightarrow> Post \<Rightarrow> error option \<times> 'st) \<Rightarrow> 'st \<Rightarrow> Post \<Rightarrow> string \<Rightarrow> Time
     \<Rightarrow> (error + string) \<times> Post \<times> 'st" where
  "CreatePost save store post uuid now =
     (if UserID post = [] then (Inl (ErrorsNew ''user ID is required''), post, store)
      else
        let post1 = (if ID post = [] then post\<lparr>ID := uuid\<rparr> else post);
            post2 = post1\<lparr>CreatedAt := now, UpdatedAt := now\<rparr>;
            post3 = (if Reactions post2 = None then post2\<lparr>Reactions := Some Map.empty\<rparr>
                     else post2)
        in (case save store post3 of
              (Some err, store') \<Rightarrow> (Inl err, post3, store')
            | (None, store') \<Rightarrow> (Inr (ID post3), post3, store')))"

section \<open>Vocabulary of the statements\<close>

text \<open>
  The post \<^verbatim>\<open>CreatePost\<close> is to leave behind, in the words of its comments: a new ID only
  when none was given, both times set to now, an empty reaction map in place of a nil one.
\<close>

definition created :: "Post \<Rightarrow> string \<Rightarrow> Time \<Rightarrow> Post" where
  "created post uuid now =
     (let post' = post\<lparr>ID := (if ID post = [] then uuid else ID post),
                        CreatedAt := now, UpdatedAt := now\<rparr>
      in if Reactions post = None then post'\<lparr>Reactions := Some Map.empty\<rparr> else post')"

text \<open>
  The sort key in the spec's words: \<^verbatim>\<open>updated_at\<close>, \<^verbatim>\<open>reactions\<close> (the sum of all reaction
  counts), \<^verbatim>\<open>comments\<close>, \<^verbatim>\<open>shares\<close>, and \<^verbatim>\<open>created_at\<close> for itself and for every other field;
  descending for the order \<^verbatim>\<open>desc\<close>, ascending otherwise.
\<close>

definition sort_key :: "PostFilter \<Rightarrow> Post \<Rightarrow> int" where
  "sort_key f p =
     (if SortBy f = ''updated_at'' then UpdatedAt p
      else if SortBy f = ''reactions'' then sint (sumReactions (Reactions p))
      else if SortBy f = ''comments'' then sint (Comments p)
      else if SortBy f = ''shares'' then sint (Shares p)
      else CreatedAt p)"

definition in_requested_order :: "PostFilter \<Rightarrow> Post list \<Rightarrow> bool" where
  "in_requested_order f xs =
     (if SortOrder f = ''desc'' then sorted_wrt (\<lambda>a b. sort_key f b \<le> sort_key f a) xs
      else sorted_wrt (\<lambda>a b. sort_key f a \<le> sort_key f b) xs)"

text \<open>
  How often a post ID is listed under a key of an index, and the condition that a post's ID
  is listed only where the stored post says: under its owner, once, and under its tags, no
  more often than the post lists the tag.
\<close>

definition listed :: "(string \<rightharpoonup> string list) \<Rightarrow> string \<Rightarrow> string \<Rightarrow> nat" where
  "listed m k pid = count (mset (index_of m k)) pid"

definition indexed_as_stored :: "InMemoryPostStore \<Rightarrow> string \<Rightarrow> Post \<Rightarrow> bool" where
  "indexed_as_stored s postID post =
     ((\<forall>u. listed (userPosts s) u postID \<le> (if u = UserID post then 1 else 0)) \<and>
      (\<forall>t. listed (tagPosts s) t postID \<le> count (mset (Tags post)) t))"




text \<open>The largest \<^verbatim>\<open>int\<close> (\<^verbatim>\<open>math.MaxInt\<close>).\<close>

definition MaxInt :: go_int where
  "MaxInt = 2 ^ 63 - 1"

text \<open>
  The ledger of a post read by kind: the users whose reaction is of kind \<open>k\<close>, and their
  number.  \<open>max_len\<close> is the largest size \<^verbatim>\<open>len\<close> can report for a Go map, so no map holds
  more entries.
\<close>

definition max_len :: nat where
  "max_len = 2 ^ 63 - 1"






section \<open>Auxiliary definitions\<close>

text \<open>The posts a collecting loop appends for one key.\<close>

definition pick :: "(string \<rightharpoonup> Post) \<Rightarrow> (Post \<Rightarrow> bool) \<Rightarrow> string \<Rightarrow> Post list" where
  "pick m Q k = (case m k of None \<Rightarrow> [] | Some post \<Rightarrow> if Q post then [post] else [])"

text \<open>
  The reaction counts \<^verbatim>\<open>SaveReaction\<close> leaves when a user's kind changes from \<open>A\<close> to \<open>B\<close>:
  the two writes of that branch.
\<close>

definition changed_counts ::
  "(ReactionType \<rightharpoonup> go_int) option \<Rightarrow> ReactionType \<Rightarrow> ReactionType \<Rightarrow> (ReactionType \<rightharpoonup> go_int)" where
  "changed_counts rs A B =
     (let r0 = make_if_nil rs;
          r1 = (if 0 <s count_of rs A then r0(A \<mapsto> count_of rs A - 1) else r0)
      in r1(B \<mapsto> count_of (Some r1) B + 1))"

section \<open>Example data\<close>

text \<open>
  Posts and stores in the manner of the repository's tests; every store is built from the
  empty one by the operations of the store.
\<close>

definition test_post :: "string \<Rightarrow> string \<Rightarrow> Time \<Rightarrow> Post" where
  "test_post postID userID now =
     \<lparr>ID = postID, UserID = userID, Content = ''Test content'', Media = [],
      Tags = [''test'', ''golang''], CreatedAt = now, UpdatedAt = now, Reactions = Some Map.empty,
      Comments = 0, Shares = 0, Visibility = ''public''\<rparr>"

definition all_posts :: PostFilter where
  "all_posts = \<lparr>UserID_F = [], Tags_F = [], TimeRange = None, Visibility_F = [],
     Limit = 0, Offset = 0, SortBy = [], SortOrder = []\<rparr>"

definition post1 :: Post where
  "post1 = \<lparr>ID = ''p1'', UserID = ''u1'', Content = ''Test content'', Media = [],
     Tags = [''test'', ''golang''], CreatedAt = 100, UpdatedAt = 100, Reactions = Some Map.empty,
     Comments = 0, Shares = 0, Visibility = ''public''\<rparr>"

definition store1 :: InMemoryPostStore where
  "store1 = snd (SavePost NewInMemoryPostStore post1)"

definition store1r :: InMemoryPostStore where
  "store1r = snd (SaveReaction store1 ''p1'' ''u2'' ReactionLike 5)"


definition reset_counts :: InMemoryPostStore where
  "reset_counts = snd (SavePost store1r post1)"

definition draft1 :: Post where
  "draft1 = \<lparr>ID = [], UserID = ''user1'', Content = ''Test content for PostManager'', Media = [],
     Tags = [''test'', ''golang'', ''postmanager''], CreatedAt = 0, UpdatedAt = 0, Reactions = None,
     Comments = 0, Shares = 0, Visibility = ''public''\<rparr>"

definition trend_a :: Post where
  "trend_a = \<lparr>ID = ''a'', UserID = ''user1'', Content = ''Test content'', Media = [],
     Tags = [''test'', ''golang''], CreatedAt = 1, UpdatedAt = 1,
     Reactions = Some [ReactionLike \<mapsto> 5, ReactionHaha \<mapsto> 2],
     Comments = 3, Shares = 1, Visibility = ''public''\<rparr>"

definition trend_b :: Post where
  "trend_b = \<lparr>ID = ''b'', UserID = ''user2'', Content = ''Test content'', Media = [],
     Tags = [''test'', ''golang''], CreatedAt = 2, UpdatedAt = 2,
     Reactions = Some [ReactionLike \<mapsto> 20, ReactionWow \<mapsto> 8],
     Comments = 3, Shares = 2, Visibility = ''public''\<rparr>"

definition trend_c :: Post where
  "trend_c = \<lparr>ID = ''c'', UserID = ''user2'', Content = ''Test content'', Media = [],
     Tags = [], CreatedAt = 3, UpdatedAt = 3,
     Reactions = Some [ReactionLove \<mapsto> 100],
     Comments = 0, Shares = 0, Visibility = ''private''\<rparr>"

definition trend_store :: InMemoryPostStore where
  "trend_store =
     snd (SavePost (snd (SavePost (snd (SavePost NewInMemoryPostStore trend_a)) trend_b)) trend_c)"




definition tag_x :: Post where
  "tag_x = (test_post ''x'' ''user1'' 1)\<lparr>Tags := [''go'']\<rparr>"

definition tag_y :: Post where
  "tag_y = (test_post ''y'' ''user2'' 2)\<lparr>Tags := [''go'', ''rust'']\<rparr>"

definition tag_store :: InMemoryPostStore where
  "tag_store = snd (SavePost (snd (SavePost NewInMemoryPostStore tag_x)) tag_y)"

definition owner_changed :: InMemoryPostStore where
  "owner_changed =
     snd (SavePost (snd (SavePost NewInMemoryPostStore (test_post ''p'' ''user1'' 1)))
            (test_post ''p'' ''user2'' 2))"



section \<open>Basic facts\<close>

lemma posts_store1: "posts store1 = [''p1'' \<mapsto> post1]"
  by (simp add: store1_def SavePost_def NewInMemoryPostStore_def post1_def)

lemma count_of_make_if_nil: "count_of (Some (make_if_nil r)) k = count_of r k"
  by (simp add: count_of_def make_if_nil_def split: option.splits)

section \<open>Reactions of an invalid kind\<close>

text \<open>
  C6.  \<^verbatim>\<open>SaveReaction\<close> on a post that does not exist returns \<^verbatim>\<open>ErrPostNotFound\<close>; on an
  existing post, with a kind that is not one of the kinds 1 to 6, it returns
  \<^verbatim>\<open>ErrInvalidReaction\<close>.  In both cases the store it leaves is the store it was given: the
  posts with their reaction counts, the ledger and the indices.
\<close>

theorem SaveReaction_invalid_kind:
  "(posts s postID = None \<longrightarrow>
      SaveReaction s postID userID k now = (Some ErrPostNotFound, s)) \<and>
   (posts s postID \<noteq> None \<and> \<not> (ReactionLike \<le> k \<and> k \<le> ReactionAngry) \<longrightarrow>
      SaveReaction s postID userID k now = (Some ErrInvalidReaction, s))"
proof (intro conjI impI)
  assume "posts s postID = None"
  then show "SaveReaction s postID userID k now = (Some ErrPostNotFound, s)"
    by (simp add: SaveReaction_def)
next
  assume a: "posts s postID \<noteq> None \<and> \<not> (ReactionLike \<le> k \<and> k \<le> ReactionAngry)"
  then obtain post where p: "posts s postID = Some post" by auto
  from a have "k \<le> ReactionNone \<or> k > ReactionAngry"
    by (auto simp: ReactionNone_def ReactionLike_def ReactionAngry_def not_le word_less_1)
  with p show "SaveReaction s postID userID k now = (Some ErrInvalidReaction, s)"
    by (simp add: SaveReaction_def)
qed

theorem SaveReaction_invalid_kind_witness:
  "SaveReaction store1 ''nonexistent-id'' ''u2'' ReactionLike 7 = (Some ErrPostNotFound, store1) \<and>
   SaveReaction store1 ''p1'' ''u3'' 100 7 = (Some ErrInvalidReaction, store1) \<and>
   SaveReaction store1 ''p1'' ''u3'' ReactionNone 7 = (Some ErrInvalidReaction, store1)"
  using SaveReaction_invalid_kind [where s = store1 and postID = "''nonexistent-id''"
      and userID = "''u2''" and k = ReactionLike and now = 7]
    SaveReaction_invalid_kind [where s = store1 and postID = "''p1''" and userID = "''u3''"
      and k = 100 and now = 7]
    SaveReaction_invalid_kind [where s = store1 and postID = "''p1''" and userID = "''u3''"
      and k = ReactionNone and now = 7]
  by (simp add: posts_store1 ReactionNone_def ReactionLike_def ReactionAngry_def)

section \<open>\<^verbatim>\<open>sort.Slice\<close> sorts\<close>

lemma mset_bubble: "mset (bubble lt x ys) = add_mset x (mset ys)"
  by (induction ys) auto

lemma set_bubble: "set (bubble lt x ys) = insert x (set ys)"
  by (induction ys) auto

lemma mset_foldl_bubble:
  "mset (foldl (\<lambda>acc x. bubble lt x acc) acc xs) = mset acc + mset xs"
  by (induction xs arbitrary: acc) (auto simp: mset_bubble)

lemma mset_sort_Slice: "mset (sort_Slice lt xs) = mset xs"
  by (simp add: sort_Slice_def mset_foldl_bubble)

lemma set_sort_Slice: "set (sort_Slice lt xs) = set xs"
  by (metis mset_sort_Slice set_mset_mset)

lemma length_sort_Slice: "length (sort_Slice lt xs) = length xs"
  by (metis mset_sort_Slice size_mset)

lemma sorted_wrt_bubble:
  assumes tr: "\<And>a b c. le a b \<Longrightarrow> le b c \<Longrightarrow> le a c"
    and lt1: "\<And>a b. lt a b \<Longrightarrow> le a b"
    and lt2: "\<And>a b. \<not> lt a b \<Longrightarrow> le b a"
  shows "sorted_wrt (\<lambda>a b. le b a) ys \<Longrightarrow> sorted_wrt (\<lambda>a b. le b a) (bubble lt x ys)"
proof (induction ys)
  case Nil
  then show ?case by simp
next
  case (Cons y ys)
  show ?case
  proof (cases "lt x y")
    case True
    with Cons show ?thesis by (auto simp: set_bubble lt1)
  next
    case False
    then have "le y x" by (rule lt2)
    with Cons.prems show ?thesis using False by (auto intro: tr)
  qed
qed

lemma sorted_wrt_foldl_bubble:
  assumes tr: "\<And>a b c. le a b \<Longrightarrow> le b c \<Longrightarrow> le a c"
    and lt1: "\<And>a b. lt a b \<Longrightarrow> le a b"
    and lt2: "\<And>a b. \<not> lt a b \<Longrightarrow> le b a"
  shows "sorted_wrt (\<lambda>a b. le b a) acc \<Longrightarrow>
    sorted_wrt (\<lambda>a b. le b a) (foldl (\<lambda>acc x. bubble lt x acc) acc xs)"
proof (induction xs arbitrary: acc)
  case Nil
  then show ?case by simp
next
  case (Cons x xs)
  have "sorted_wrt (\<lambda>a b. le b a) (bubble lt x acc)"
    by (rule sorted_wrt_bubble [where le = le and lt = lt]) (auto intro: tr lt1 lt2 Cons.prems)
  then show ?case using Cons.IH by simp
qed

lemma sorted_wrt_sort_Slice:
  assumes tr: "\<And>a b c. le a b \<Longrightarrow> le b c \<Longrightarrow> le a c"
    and lt1: "\<And>a b. lt a b \<Longrightarrow> le a b"
    and lt2: "\<And>a b. \<not> lt a b \<Longrightarrow> le b a"
  shows "sorted_wrt le (sort_Slice lt xs)"
proof -
  have "sorted_wrt (\<lambda>a b. le b a) (foldl (\<lambda>acc x. bubble lt x acc) [] xs)"
    by (rule sorted_wrt_foldl_bubble [where le = le and lt = lt]) (auto intro: tr lt1 lt2)
  then show ?thesis by (simp add: sort_Slice_def sorted_wrt_rev)
qed

section \<open>Collecting loops\<close>

lemma foldl_append_concat: "foldl (\<lambda>r x. r @ g x) acc xs = acc @ concat (map g xs)"
  by (induction xs arbitrary: acc) auto

lemma foldl_pick:
  "foldl (\<lambda>result k. case m k of None \<Rightarrow> result
                      | Some post \<Rightarrow> if Q post then result @ [post] else result) acc ks
   = acc @ concat (map (pick m Q) ks)"
proof -
  have "(\<lambda>result k. case m k of None \<Rightarrow> result
                      | Some post \<Rightarrow> if Q post then result @ [post] else result)
        = (\<lambda>result k. result @ pick m Q k)"
    by (auto simp: pick_def fun_eq_iff split: option.splits)
  then show ?thesis by (simp add: foldl_append_concat)
qed

lemma set_concat_pick:
  "set (concat (map (pick m Q) ks)) = {p. \<exists>k \<in> set ks. m k = Some p \<and> Q p}"
  by (auto simp: pick_def split: option.splits if_splits)

lemma length_concat_pick:
  "length (concat (map (pick m Q) ks)) = length (filter (\<lambda>k. \<exists>p. m k = Some p \<and> Q p) ks)"
  by (induction ks) (auto simp: pick_def split: option.splits)

lemma set_range_keys: "set (range_keys ord m) = dom m \<inter> set ord"
  by (auto simp: range_keys_def)

lemma distinct_range_keys: "distinct (range_keys ord m)"
  by (simp add: range_keys_def)

section \<open>Trending posts\<close>

lemma posts_trend_store: "posts trend_store = [''a'' \<mapsto> trend_a, ''b'' \<mapsto> trend_b, ''c'' \<mapsto> trend_c]"
  by (simp add: trend_store_def SavePost_def NewInMemoryPostStore_def trend_a_def trend_b_def trend_c_def)

lemma engagement_trend: "engagement trend_a = 11" "engagement trend_b = 33"
  by (simp_all add: engagement_def sumReactions_def trend_a_def trend_b_def
      ReactionLike_def ReactionHaha_def ReactionWow_def)

text \<open>
  C7.  Whatever order the runtime enumerates the posts in, \<^verbatim>\<open>GetTrendingPosts\<close> with a
  limit of 0 returns exactly the public posts, one per stored key, sorted by descending
  engagement score, where \<open>engagement\<close> is the sum of the reaction counts plus comments plus
  shares in Go's \<^verbatim>\<open>int\<close> arithmetic; so a post with a larger score stands before every
  post with a smaller one.  With a positive limit the result is the first \<open>limit\<close> posts
  of that list, with a zero or negative limit all of it.
\<close>

theorem GetTrendingPosts_ranked:
  assumes ord: "dom (posts s) \<subseteq> set ord"
  shows "\<exists>full.
     GetTrendingPosts s 0 ord = Inr full \<and>
     set full = {p. \<exists>k. posts s k = Some p \<and> Visibility p = ''public''} \<and>
     length full = card {k. \<exists>p. posts s k = Some p \<and> Visibility p = ''public''} \<and>
     sorted_wrt (\<lambda>a b. sint (engagement b) \<le> sint (engagement a)) full \<and>
     (\<forall>i j. i < length full \<and> j < length full \<and>
        sint (engagement (full ! j)) < sint (engagement (full ! i)) \<longrightarrow> i < j) \<and>
     GetTrendingPosts s limit ord =
       Inr (if 0 <s limit then take (nat (sint limit)) full else full)"
proof -
  define Q :: "Post \<Rightarrow> bool" where "Q = (\<lambda>p. Visibility p = ''public'')"
  define ks where "ks = range_keys ord (posts s)"
  define pub where "pub = concat (map (pick (posts s) Q) ks)"
  define full where "full = sort_Slice (\<lambda>a b. engagement b <s engagement a) pub"
  have ks: "set ks = dom (posts s)" "distinct ks"
    using ord by (auto simp: ks_def set_range_keys distinct_range_keys)
  have get: "GetTrendingPosts s l ord =
      Inr (if 0 <s l then take (nat (sint l)) full else full)" for l
    unfolding GetTrendingPosts_def Let_def
    by (simp only: foldl_pick [where m = "posts s" and Q = "\<lambda>p. Visibility p = ''public''", folded Q_def]
          append_Nil ks_def [symmetric] pub_def [symmetric] full_def [symmetric])
       (auto simp: length_sort_Slice)
  have 1: "GetTrendingPosts s 0 ord = Inr full"
    using get [of 0] by simp
  have "set full = set pub"
    by (simp add: full_def set_sort_Slice)
  also have "\<dots> = {p. \<exists>k \<in> set ks. posts s k = Some p \<and> Q p}"
    unfolding pub_def by (rule set_concat_pick)
  also have "\<dots> = {p. \<exists>k. posts s k = Some p \<and> Visibility p = ''public''}"
    by (auto simp: ks Q_def)
  finally have 2: "set full = {p. \<exists>k. posts s k = Some p \<and> Visibility p = ''public''}" .
  have "length full = length pub"
    by (simp add: full_def length_sort_Slice)
  also have "\<dots> = length (filter (\<lambda>k. \<exists>p. posts s k = Some p \<and> Q p) ks)"
    unfolding pub_def by (rule length_concat_pick)
  also have "\<dots> = card (set (filter (\<lambda>k. \<exists>p. posts s k = Some p \<and> Q p) ks))"
    using ks(2) by (intro distinct_card [symmetric] distinct_filter)
  also have "set (filter (\<lambda>k. \<exists>p. posts s k = Some p \<and> Q p) ks)
      = {k. \<exists>p. posts s k = Some p \<and> Visibility p = ''public''}"
    by (auto simp: ks Q_def)
  finally have 3: "length full = card {k. \<exists>p. posts s k = Some p \<and> Visibility p = ''public''}" .
  have 4: "sorted_wrt (\<lambda>a b. sint (engagement b) \<le> sint (engagement a)) full"
    unfolding full_def
    by (rule sorted_wrt_sort_Slice) (auto simp: word_sless_alt)
  have 5: "i < j" if "i < length full" "j < length full"
    "sint (engagement (full ! j)) < sint (engagement (full ! i))" for i j
  proof (rule ccontr)
    assume "\<not> i < j"
    then have "j < i \<or> j = i" by auto
    then show False
    proof
      assume "j < i"
      with 4 that(1) have "sint (engagement (full ! i)) \<le> sint (engagement (full ! j))"
        by (simp add: sorted_wrt_iff_nth_less)
      with that(3) show False by simp
    next
      assume "j = i"
      with that(3) show False by simp
    qed
  qed
  from 1 2 3 4 5 get [of limit] show ?thesis by blast
qed

theorem GetTrendingPosts_ranked_witness:
  "dom (posts trend_store) \<subseteq> set [''a'', ''b'', ''c''] \<and>
   sint (engagement trend_a) = 11 \<and> sint (engagement trend_b) = 33 \<and>
   GetTrendingPosts trend_store 0 [''a'', ''b'', ''c''] = Inr [trend_b, trend_a] \<and>
   GetTrendingPosts trend_store 1 [''a'', ''b'', ''c''] = Inr [trend_b]"
proof -
  have d: "dom (posts trend_store) \<subseteq> set [''a'', ''b'', ''c'']"
    by (simp add: posts_trend_store)
  have "GetTrendingPosts trend_store 0 [''a'', ''b'', ''c''] = Inr [trend_b, trend_a]"
    by (simp add: GetTrendingPosts_def posts_trend_store range_keys_def sort_Slice_def engagement_trend)
       (simp add: trend_a_def trend_b_def trend_c_def)
  with GetTrendingPosts_ranked [OF d, of 1] d show ?thesis
    by (simp add: engagement_trend word_sless_alt)
qed

section \<open>Creating a post\<close>

lemma fst_SavePost: "fst (SavePost s post) = None"
  by (simp add: SavePost_def Let_def split: option.splits)

text \<open>
  C10.  \<^verbatim>\<open>CreatePost\<close> on a post with an empty \<^verbatim>\<open>UserID\<close> returns the error
  "user ID is required" and neither calls the store nor writes to the post.  With a
  non-empty \<^verbatim>\<open>UserID\<close> it hands the store the post \<open>created post uuid now\<close> (a generated
  ID only when the given one is empty, \<^verbatim>\<open>CreatedAt\<close> and \<^verbatim>\<open>UpdatedAt\<close> set to now, a nil
  \<^verbatim>\<open>Reactions\<close> replaced by the empty map) and returns that post's ID when the store
  reports no error, the store's error otherwise.  The in-memory store never reports one.
\<close>

theorem CreatePost_spec:
  "(UserID post = [] \<longrightarrow>
      CreatePost save store post uuid now = (Inl (ErrorsNew ''user ID is required''), post, store)) \<and>
   (UserID post \<noteq> [] \<longrightarrow>
      CreatePost save store post uuid now =
        ((case fst (save store (created post uuid now)) of
            Some err \<Rightarrow> Inl err
          | None \<Rightarrow> Inr (ID (created post uuid now))),
         created post uuid now,
         snd (save store (created post uuid now))) \<and>
      CreatePost SavePost s post uuid now =
        (Inr (ID (created post uuid now)), created post uuid now,
         snd (SavePost s (created post uuid now))))"
proof -
  have gen: "CreatePost sv st post uuid now =
        ((case fst (sv st (created post uuid now)) of
            Some err \<Rightarrow> Inl err
          | None \<Rightarrow> Inr (ID (created post uuid now))),
         created post uuid now,
         snd (sv st (created post uuid now)))"
    if "UserID post \<noteq> []" for sv :: "'b \<Rightarrow> Post \<Rightarrow> error option \<times> 'b" and st
    using that
    by (cases "Reactions post"; cases "ID post = []")
       (auto simp: CreatePost_def created_def Let_def split: option.splits prod.splits)
  show ?thesis
    using gen [of save store] gen [of SavePost s]
    by (auto simp: CreatePost_def fst_SavePost)
qed

theorem CreatePost_spec_witness:
  "CreatePost SavePost NewInMemoryPostStore (draft1\<lparr>UserID := []\<rparr>) ''uuid-1'' 5 =
     (Inl (ErrorsNew ''user ID is required''), draft1\<lparr>UserID := []\<rparr>, NewInMemoryPostStore) \<and>
   fst (CreatePost SavePost NewInMemoryPostStore draft1 ''uuid-1'' 5) = Inr ''uuid-1'' \<and>
   fst (snd (CreatePost SavePost NewInMemoryPostStore draft1 ''uuid-1'' 5)) =
     draft1\<lparr>ID := ''uuid-1'', CreatedAt := 5, UpdatedAt := 5, Reactions := Some Map.empty\<rparr> \<and>
   fst (CreatePost SavePost NewInMemoryPostStore (draft1\<lparr>ID := ''given''\<rparr>) ''uuid-1'' 5) =
     Inr ''given''"
  using CreatePost_spec [where post = "draft1\<lparr>UserID := []\<rparr>" and save = SavePost
      and store = NewInMemoryPostStore and uuid = "''uuid-1''" and now = 5 and s = NewInMemoryPostStore]
    CreatePost_spec [where post = draft1 and save = SavePost
      and store = NewInMemoryPostStore and uuid = "''uuid-1''" and now = 5 and s = NewInMemoryPostStore]
    CreatePost_spec [where post = "draft1\<lparr>ID := ''given''\<rparr>" and save = SavePost
      and store = NewInMemoryPostStore and uuid = "''uuid-1''" and now = 5 and s = NewInMemoryPostStore]
  by (simp add: draft1_def created_def fst_SavePost)

section \<open>Pagination\<close>




lemma paginate_no_limit:
  assumes "\<not> 0 <s limit"
  shows "paginate result limit offset = Inr result"
  using assms by (simp add: paginate_def)

lemma collect_pick: "collect s f ids = concat (map (pick (posts s) (passes f)) ids)"
  unfolding collect_def by (simp only: foldl_pick append_Nil)

lemma passes_cong:
  assumes "TimeRange f = TimeRange g" "Visibility_F f = Visibility_F g"
  shows "passes f = passes g"
  using assms by (simp add: passes_def fun_eq_iff)

lemma selected_cong:
  assumes "UserID_F f = UserID_F g" "Tags_F f = Tags_F g"
    "TimeRange f = TimeRange g" "Visibility_F f = Visibility_F g"
  shows "selected s f ord = selected s g ord"
proof -
  have "passes f = passes g" using assms(3,4) by (rule passes_cong)
  then have "collect s f ids = collect s g ids" for ids by (simp only: collect_pick)
  moreover have "candidates s f = candidates s g"
    using assms(1,2) by (simp add: candidates_def user_candidates_def)
  ultimately show ?thesis by (simp add: selected_def split: option.splits)
qed

lemma sort_less_cong:
  assumes "SortBy f = SortBy g" "SortOrder f = SortOrder g"
  shows "sort_less f = sort_less g"
  using assms by (simp add: sort_less_def fun_eq_iff)











section \<open>Sorting the list\<close>

lemma sort_less_key:
  "sort_less f a b =
     (if SortOrder f = ''desc'' then \<not> sort_key f a < sort_key f b
      else sort_key f a < sort_key f b)"
  by (simp add: sort_less_def sort_key_def word_sless_alt)

lemma in_requested_order_sort_Slice: "in_requested_order f (sort_Slice (sort_less f) xs)"
proof (cases "SortOrder f = ''desc''")
  case True
  have "sorted_wrt (\<lambda>a b. sort_key f b \<le> sort_key f a) (sort_Slice (sort_less f) xs)"
    by (rule sorted_wrt_sort_Slice) (auto simp: sort_less_key True)
  then show ?thesis by (simp add: in_requested_order_def True)
next
  case False
  have "sorted_wrt (\<lambda>a b. sort_key f a \<le> sort_key f b) (sort_Slice (sort_less f) xs)"
    by (rule sorted_wrt_sort_Slice) (auto simp: sort_less_key False)
  then show ?thesis by (simp add: in_requested_order_def False)
qed

lemma sorted_wrt_paginate:
  assumes "sorted_wrt R result" "paginate result l off = Inr xs"
  shows "sorted_wrt R xs"
  using assms unfolding paginate_def Let_def
  by (auto split: if_splits intro: sorted_wrt_take sorted_wrt_drop)

lemma in_requested_order_paginate:
  assumes "in_requested_order f result" "paginate result l off = Inr xs"
  shows "in_requested_order f xs"
  using assms by (auto simp: in_requested_order_def split: if_splits intro: sorted_wrt_paginate)

lemma selected_trend_store:
  "selected trend_store all_posts [''c'', ''b'', ''a''] = [trend_c, trend_b, trend_a]"
  by (simp add: selected_def candidates_def user_candidates_def all_posts_def
      collect_def posts_trend_store range_keys_def passes_def)

lemma selected_trend_store':
  assumes "UserID_F f = []" "Tags_F f = []" "TimeRange f = None" "Visibility_F f = []"
  shows "selected trend_store f [''c'', ''b'', ''a''] = [trend_c, trend_b, trend_a]"
proof -
  have "selected trend_store f [''c'', ''b'', ''a''] = selected trend_store all_posts [''c'', ''b'', ''a'']"
    using assms by (intro selected_cong) (simp_all add: all_posts_def)
  then show ?thesis by (simp add: selected_trend_store)
qed

lemma sumReactions_trend:
  "sumReactions (Reactions trend_a) = 7" "sumReactions (Reactions trend_b) = 28"
  "sumReactions (Reactions trend_c) = 100"
  by (simp_all add: sumReactions_def trend_a_def trend_b_def trend_c_def
      ReactionLike_def ReactionHaha_def ReactionWow_def ReactionLove_def)

text \<open>
  C9, as the claim states it, fails.  With no sort field in the filter the in-memory store
  does not sort at all: three posts created at 1, 2 and 3 come back in the order the runtime
  enumerated them, here 3, 2, 1.  The GORM store orders by \<^verbatim>\<open>created_at\<close>, descending, when
  it is asked for \<^verbatim>\<open>reactions\<close>.
\<close>

theorem ListPosts_unsorted_counterexample:
  "SortBy all_posts = [] \<and>
   ListPosts trend_store all_posts [''c'', ''b'', ''a''] = Inr [trend_c, trend_b, trend_a] \<and>
   CreatedAt trend_c = 3 \<and> CreatedAt trend_b = 2 \<and> CreatedAt trend_a = 1 \<and>
   gorm_order (all_posts\<lparr>SortBy := ''reactions''\<rparr>) = ''created_at DESC''"
  by (simp add: ListPosts_def selected_trend_store paginate_def gorm_order_def)
     (simp add: all_posts_def trend_a_def trend_b_def trend_c_def)

text \<open>
  C9, amended.  In-memory store: with a non-empty \<^verbatim>\<open>SortBy\<close> the posts \<^verbatim>\<open>ListPosts\<close> returns
  are the selected posts in the requested order (\<open>in_requested_order\<close>: by \<open>sort_key\<close>,
  descending for \<^verbatim>\<open>desc\<close>, ascending otherwise), and so is every page of them; with an empty
  \<^verbatim>\<open>SortBy\<close> the selected posts are returned in the order the runtime enumerated them.
  GORM store: the ORDER BY clause names \<^verbatim>\<open>updated_at\<close>, \<^verbatim>\<open>comments\<close> or \<^verbatim>\<open>shares\<close> when asked
  for, \<^verbatim>\<open>created_at\<close> otherwise (for \<^verbatim>\<open>reactions\<close> too), ascending only for a non-empty
  \<^verbatim>\<open>SortBy\<close> with the order \<^verbatim>\<open>asc\<close>, descending otherwise.
\<close>

theorem ListPosts_sorted:
  "(\<exists>all. ListPosts s (f\<lparr>Limit := 0\<rparr>) ord = Inr all \<and>
      mset all = mset (selected s f ord) \<and>
      (SortBy f \<noteq> [] \<longrightarrow> in_requested_order f all) \<and>
      (SortBy f = [] \<longrightarrow> all = selected s f ord)) \<and>
   (SortBy f \<noteq> [] \<and> ListPosts s f ord = Inr xs \<longrightarrow> in_requested_order f xs) \<and>
   gorm_order f =
     (if SortBy f \<in> {''updated_at'', ''comments'', ''shares''} then SortBy f else ''created_at'')
     @ '' '' @ (if SortBy f \<noteq> [] \<and> SortOrder f = ''asc'' then ''ASC'' else ''DESC'')"
proof -
  define all where
    "all = (if SortBy f \<noteq> [] then sort_Slice (sort_less f) (selected s f ord) else selected s f ord)"
  have sel: "selected s (f\<lparr>Limit := 0\<rparr>) ord = selected s f ord"
    by (rule selected_cong) simp_all
  have sl: "sort_less (f\<lparr>Limit := 0\<rparr>) = sort_less f"
    by (rule sort_less_cong) simp_all
  have 1: "ListPosts s (f\<lparr>Limit := 0\<rparr>) ord = Inr all"
    by (simp add: ListPosts_def Let_def sel sl paginate_no_limit all_def)
  have 2: "mset all = mset (selected s f ord)"
    by (simp add: all_def mset_sort_Slice)
  have 3: "in_requested_order f all" if "SortBy f \<noteq> []"
    using that by (simp add: all_def in_requested_order_sort_Slice)
  have 4: "all = selected s f ord" if "SortBy f = []"
    using that by (simp add: all_def)
  have 5: "in_requested_order f xs" if "SortBy f \<noteq> [] \<and> ListPosts s f ord = Inr xs"
  proof -
    from that have "paginate all (Limit f) (Offset f) = Inr xs"
      by (auto simp: ListPosts_def Let_def all_def)
    with 3 that show ?thesis by (blast intro: in_requested_order_paginate)
  qed
  have 6: "gorm_order f =
     (if SortBy f \<in> {''updated_at'', ''comments'', ''shares''} then SortBy f else ''created_at'')
     @ '' '' @ (if SortBy f \<noteq> [] \<and> SortOrder f = ''asc'' then ''ASC'' else ''DESC'')"
    by (simp add: gorm_order_def Let_def)
  from 1 2 3 4 5 6 show ?thesis by blast
qed

theorem ListPosts_sorted_witness:
  "ListPosts trend_store (all_posts\<lparr>SortBy := ''reactions'', SortOrder := ''desc''\<rparr>)
     [''c'', ''b'', ''a''] = Inr [trend_c, trend_b, trend_a] \<and>
   in_requested_order (all_posts\<lparr>SortBy := ''reactions'', SortOrder := ''desc''\<rparr>)
     [trend_c, trend_b, trend_a] \<and>
   ListPosts trend_store (all_posts\<lparr>SortBy := ''reactions''\<rparr>)
     [''c'', ''b'', ''a''] = Inr [trend_a, trend_b, trend_c] \<and>
   ListPosts trend_store (all_posts\<lparr>SortBy := ''popularity''\<rparr>)
     [''c'', ''b'', ''a''] = Inr [trend_a, trend_b, trend_c] \<and>
   in_requested_order (all_posts\<lparr>SortBy := ''popularity''\<rparr>) [trend_a, trend_b, trend_c] \<and>
   ListPosts trend_store (all_posts\<lparr>Limit := 0\<rparr>) [''c'', ''b'', ''a''] =
     Inr [trend_c, trend_b, trend_a]"
proof -
  have 1: "ListPosts trend_store (all_posts\<lparr>SortBy := ''reactions'', SortOrder := ''desc''\<rparr>)
     [''c'', ''b'', ''a''] = Inr [trend_c, trend_b, trend_a]"
    by (simp add: ListPosts_def selected_trend_store' all_posts_def sort_Slice_def sort_less_def
        sumReactions_trend paginate_def)
  have 2: "ListPosts trend_store (all_posts\<lparr>SortBy := ''reactions''\<rparr>)
     [''c'', ''b'', ''a''] = Inr [trend_a, trend_b, trend_c]"
    by (simp add: ListPosts_def selected_trend_store' all_posts_def sort_Slice_def sort_less_def
        sumReactions_trend paginate_def)
  have 3: "ListPosts trend_store (all_posts\<lparr>SortBy := ''popularity''\<rparr>)
     [''c'', ''b'', ''a''] = Inr [trend_a, trend_b, trend_c]"
    by (simp add: ListPosts_def selected_trend_store' all_posts_def sort_Slice_def sort_less_def
        paginate_def)
       (simp add: trend_a_def trend_b_def trend_c_def)
  have 4: "in_requested_order (all_posts\<lparr>SortBy := ''reactions'', SortOrder := ''desc''\<rparr>)
     [trend_c, trend_b, trend_a]"
    using ListPosts_sorted [where s = trend_store and ord = "[''c'', ''b'', ''a'']"
        and f = "all_posts\<lparr>SortBy := ''reactions'', SortOrder := ''desc''\<rparr>"
        and xs = "[trend_c, trend_b, trend_a]"] 1
    by simp
  have 5: "in_requested_order (all_posts\<lparr>SortBy := ''popularity''\<rparr>) [trend_a, trend_b, trend_c]"
    using ListPosts_sorted [where s = trend_store and ord = "[''c'', ''b'', ''a'']"
        and f = "all_posts\<lparr>SortBy := ''popularity''\<rparr>"
        and xs = "[trend_a, trend_b, trend_c]"] 3
    by simp
  have e: "SortBy all_posts = []" by (simp add: all_posts_def)
  have "ListPosts trend_store (all_posts\<lparr>Limit := 0\<rparr>) [''c'', ''b'', ''a''] =
     Inr (selected trend_store all_posts [''c'', ''b'', ''a''])"
    using ListPosts_sorted [where s = trend_store and ord = "[''c'', ''b'', ''a'']"
        and f = all_posts, THEN conjunct1] e
    by auto
  then have 6: "ListPosts trend_store (all_posts\<lparr>Limit := 0\<rparr>) [''c'', ''b'', ''a''] =
     Inr [trend_c, trend_b, trend_a]"
    by (simp add: selected_trend_store)
  from 1 2 3 4 5 6 show ?thesis by simp
qed

section \<open>The tag filter\<close>

lemma tag_store_eq:
  "tag_store = \<lparr>posts = [''x'' \<mapsto> tag_x, ''y'' \<mapsto> tag_y], reactions = Map.empty,
     userPosts = [''user1'' \<mapsto> [''x''], ''user2'' \<mapsto> [''y'']],
     tagPosts = [''go'' \<mapsto> [''x'', ''y''], ''rust'' \<mapsto> [''y'']]\<rparr>"
  by (simp add: tag_store_def SavePost_def NewInMemoryPostStore_def tag_x_def tag_y_def test_post_def
      append_id_def index_of_def)

text \<open>
  C1.  Two posts are saved: \<open>x\<close> of user1 with the tag go, \<open>y\<close> of user2 with the tags go
  and rust.  \<^verbatim>\<open>ListPosts\<close> with the tag filter [go, rust] returns both, although \<open>x\<close> does not
  carry rust: every post of the first tag is taken, and posts of later tags are tested
  against the user candidates (nil here), not against the tag candidates so far.  With the
  user filter user1 and the tag filter [rust] it returns \<open>y\<close>, which user1 does not own.
\<close>

theorem ListPosts_tags_not_intersected:
  "ListPosts tag_store (all_posts\<lparr>Tags_F := [''go'', ''rust'']\<rparr>) [''x'', ''y''] = Inr [tag_x, tag_y] \<and>
   ''rust'' \<notin> set (Tags tag_x) \<and>
   ListPosts tag_store (all_posts\<lparr>UserID_F := ''user1'', Tags_F := [''rust'']\<rparr>) [''x'', ''y'']
     = Inr [tag_y] \<and>
   UserID tag_y \<noteq> ''user1''"
  by (simp add: ListPosts_def selected_def candidates_def user_candidates_def candidate_has_def
      all_posts_def tag_store_eq index_of_def range_keys_def collect_def passes_def paginate_def)
     (auto simp: tag_x_def tag_y_def test_post_def)

section \<open>The indices\<close>

lemma listed_member: "pid \<in> set (index_of m k) \<longleftrightarrow> 0 < listed m k pid"
  by (simp add: listed_def)

lemma index_of_remove_id:
  "index_of (remove_id m k pid) k' = (if k' = k then remove1 pid (index_of m k) else index_of m k')"
  by (auto simp: remove_id_def index_of_def remove1_idem split: option.splits)



lemma listed_remove_id:
  "listed (remove_id m k pid) k' x =
     (if k' = k \<and> x = pid then listed m k pid - 1 else listed m k' x)"
  by (simp add: listed_def index_of_remove_id)



lemma listed_foldl_remove_id:
  "listed (foldl (\<lambda>tp tag. remove_id tp tag pid) m tags) t x =
     (if x = pid then listed m t pid - count (mset tags) t else listed m t x)"
  by (induction tags arbitrary: m) (auto simp: listed_remove_id)



lemma store1_eq:
  "store1 = \<lparr>posts = [''p1'' \<mapsto> post1], reactions = Map.empty,
     userPosts = [''u1'' \<mapsto> [''p1'']],
     tagPosts = [''test'' \<mapsto> [''p1''], ''golang'' \<mapsto> [''p1'']]\<rparr>"
  by (simp add: store1_def SavePost_def NewInMemoryPostStore_def post1_def
      append_id_def index_of_def)

lemma store1r_eq:
  "store1r = \<lparr>posts = [''p1'' \<mapsto> post1\<lparr>Reactions := Some [ReactionLike \<mapsto> 1]\<rparr>],
     reactions = [''p1'' \<mapsto> [''u2'' \<mapsto>
       \<lparr>UserID_R = ''u2'', ReactionType = ReactionLike, CreatedAt_R = 5\<rparr>]],
     userPosts = [''u1'' \<mapsto> [''p1'']],
     tagPosts = [''test'' \<mapsto> [''p1''], ''golang'' \<mapsto> [''p1'']]\<rparr>"
  by (simp add: store1r_def store1_eq SaveReaction_def ledger_def make_if_nil_def count_of_def
      ReactionNone_def ReactionLike_def ReactionAngry_def)
     (simp add: post1_def)

lemma owner_changed_eq:
  "owner_changed = \<lparr>posts = [''p'' \<mapsto> test_post ''p'' ''user2'' 2], reactions = Map.empty,
     userPosts = [''user1'' \<mapsto> [''p'']],
     tagPosts = [''test'' \<mapsto> [''p''], ''golang'' \<mapsto> [''p'']]\<rparr>"
  by (simp add: owner_changed_def SavePost_def NewInMemoryPostStore_def test_post_def
      append_id_def remove_id_def add_id_if_absent_def index_of_def)

section \<open>Deleting a post\<close>

text \<open>
  C8, as the claim states it, fails in its last part.  A post is saved by user1 and saved
  again under the same ID with the owner user2; the update path of \<^verbatim>\<open>SavePost\<close> leaves the
  user index as it was.  \<^verbatim>\<open>DeletePost\<close> by the owner user2 succeeds and the post's ID is
  still listed under user1.
\<close>

theorem DeletePost_stale_owner_index_counterexample:
  "GetPost owner_changed ''p'' = Inr (test_post ''p'' ''user2'' 2) \<and>
   fst (DeletePost owner_changed ''p'' ''user2'') = None \<and>
   ''p'' \<in> set (index_of (userPosts (snd (DeletePost owner_changed ''p'' ''user2''))) ''user1'')"
  by (simp add: owner_changed_eq GetPost_def DeletePost_def remove_id_def index_of_def test_post_def)

text \<open>
  C8, amended.  \<^verbatim>\<open>DeletePost\<close> on an ID that is not stored returns \<^verbatim>\<open>ErrPostNotFound\<close>, by
  a user who is not the owner \<^verbatim>\<open>ErrPermissionDenied\<close>; both leave the store as it was, so
  \<^verbatim>\<open>GetPost\<close> still returns the post.  By the owner it succeeds: \<^verbatim>\<open>GetPost\<close> then returns
  \<^verbatim>\<open>ErrPostNotFound\<close>, the post's ledger is gone, and the post's ID has been taken once out
  of the owner's list and, for each tag, as often out of the tag's list as the post lists
  the tag.  No index lists the ID afterwards when the indices listed it as the stored post
  says (\<open>indexed_as_stored\<close>).
\<close>

theorem DeletePost_spec:
  "(posts s postID = None \<longrightarrow> DeletePost s postID userID = (Some ErrPostNotFound, s)) \<and>
   (\<forall>post. posts s postID = Some post \<and> UserID post \<noteq> userID \<longrightarrow>
      DeletePost s postID userID = (Some ErrPermissionDenied, s) \<and> GetPost s postID = Inr post) \<and>
   (\<forall>post s'. posts s postID = Some post \<and> UserID post = userID \<and>
        s' = snd (DeletePost s postID userID) \<longrightarrow>
      fst (DeletePost s postID userID) = None \<and>
      GetPost s' postID = Inl ErrPostNotFound \<and>
      reactions s' postID = None \<and>
      (\<forall>u. listed (userPosts s') u postID =
           listed (userPosts s) u postID - (if u = userID then 1 else 0)) \<and>
      (\<forall>t. listed (tagPosts s') t postID =
           listed (tagPosts s) t postID - count (mset (Tags post)) t) \<and>
      (indexed_as_stored s postID post \<longrightarrow>
         (\<forall>u. postID \<notin> set (index_of (userPosts s') u)) \<and>
         (\<forall>t. postID \<notin> set (index_of (tagPosts s') t))))"
proof (intro conjI allI impI)
  assume "posts s postID = None"
  then show "DeletePost s postID userID = (Some ErrPostNotFound, s)"
    by (simp add: DeletePost_def)
next
  fix post
  assume "posts s postID = Some post \<and> UserID post \<noteq> userID"
  then show "DeletePost s postID userID = (Some ErrPermissionDenied, s)"
    and "GetPost s postID = Inr post"
    by (simp_all add: DeletePost_def GetPost_def)
next
  fix post s'
  assume a: "posts s postID = Some post \<and> UserID post = userID \<and>
    s' = snd (DeletePost s postID userID)"
  then have s': "s' = s\<lparr>userPosts := remove_id (userPosts s) userID postID,
      tagPosts := foldl (\<lambda>tp tag. remove_id tp tag postID) (tagPosts s) (Tags post),
      reactions := (reactions s)(postID := None), posts := (posts s)(postID := None)\<rparr>"
    by (simp add: DeletePost_def Let_def)
  from a show "fst (DeletePost s postID userID) = None"
    by (simp add: DeletePost_def Let_def)
  show "GetPost s' postID = Inl ErrPostNotFound"
    by (simp add: s' GetPost_def)
  show "reactions s' postID = None"
    by (simp add: s')
  show u: "listed (userPosts s') u postID =
      listed (userPosts s) u postID - (if u = userID then 1 else 0)" for u
    by (simp add: s' listed_remove_id)
  show t: "listed (tagPosts s') t postID =
      listed (tagPosts s) t postID - count (mset (Tags post)) t" for t
    by (simp add: s' listed_foldl_remove_id)
  {
    assume i: "indexed_as_stored s postID post"
    show "postID \<notin> set (index_of (userPosts s') u)" for u
      using i a u [of u] by (auto simp: indexed_as_stored_def listed_member)
    show "postID \<notin> set (index_of (tagPosts s') t)" for t
      using i t [of t] by (auto simp: indexed_as_stored_def listed_member)
  }
qed

theorem DeletePost_spec_witness:
  "DeletePost store1r ''nonexistent-id'' ''u1'' = (Some ErrPostNotFound, store1r) \<and>
   DeletePost store1r ''p1'' ''u2'' = (Some ErrPermissionDenied, store1r) \<and>
   GetPost store1r ''p1'' = Inr (post1\<lparr>Reactions := Some [ReactionLike \<mapsto> 1]\<rparr>) \<and>
   fst (DeletePost store1r ''p1'' ''u1'') = None \<and>
   GetPost (snd (DeletePost store1r ''p1'' ''u1'')) ''p1'' = Inl ErrPostNotFound \<and>
   reactions store1r ''p1'' \<noteq> None \<and>
   reactions (snd (DeletePost store1r ''p1'' ''u1'')) ''p1'' = None \<and>
   ''p1'' \<in> set (index_of (userPosts store1r) ''u1'') \<and>
   ''p1'' \<in> set (index_of (tagPosts store1r) ''golang'') \<and>
   ''p1'' \<notin> set (index_of (userPosts (snd (DeletePost store1r ''p1'' ''u1''))) ''u1'') \<and>
   ''p1'' \<notin> set (index_of (tagPosts (snd (DeletePost store1r ''p1'' ''u1''))) ''golang'')"
proof -
  let ?post = "post1\<lparr>Reactions := Some [ReactionLike \<mapsto> 1]\<rparr>"
  have p: "posts store1r ''p1'' = Some ?post" "posts store1r ''nonexistent-id'' = None"
    by (simp_all add: store1r_eq)
  have u: "UserID ?post = ''u1''" by (simp add: post1_def)
  have i: "indexed_as_stored store1r ''p1'' ?post"
    by (simp add: indexed_as_stored_def listed_def store1r_eq index_of_def post1_def)
  have before: "reactions store1r ''p1'' \<noteq> None"
    "''p1'' \<in> set (index_of (userPosts store1r) ''u1'')"
    "''p1'' \<in> set (index_of (tagPosts store1r) ''golang'')"
    by (simp_all add: store1r_eq index_of_def)
  from DeletePost_spec [where s = store1r and postID = "''nonexistent-id''" and userID = "''u1''"] p
  have 1: "DeletePost store1r ''nonexistent-id'' ''u1'' = (Some ErrPostNotFound, store1r)"
    by simp
  from DeletePost_spec [where s = store1r and postID = "''p1''" and userID = "''u2''"] p u
  have 2: "DeletePost store1r ''p1'' ''u2'' = (Some ErrPermissionDenied, store1r)"
    "GetPost store1r ''p1'' = Inr ?post"
    by simp_all
  from DeletePost_spec [where s = store1r and postID = "''p1''" and userID = "''u1''"] p u i
  have 3: "fst (DeletePost store1r ''p1'' ''u1'') = None"
    "GetPost (snd (DeletePost store1r ''p1'' ''u1'')) ''p1'' = Inl ErrPostNotFound"
    "reactions (snd (DeletePost store1r ''p1'' ''u1'')) ''p1'' = None"
    "''p1'' \<notin> set (index_of (userPosts (snd (DeletePost store1r ''p1'' ''u1''))) ''u1'')"
    "''p1'' \<notin> set (index_of (tagPosts (snd (DeletePost store1r ''p1'' ''u1''))) ''golang'')"
    by simp_all
  from 1 2 3 before show ?thesis by simp
qed

section \<open>Changing a reaction\<close>

lemma sint_MaxInt: "sint MaxInt = 2 ^ 63 - 1"
  by (simp add: MaxInt_def)

lemma sle_succ:
  fixes c :: go_int
  assumes "0 \<le>s c" "c \<noteq> MaxInt"
  shows "0 \<le>s c + 1"
proof -
  have "sint c \<noteq> sint MaxInt" using assms(2) by (auto dest: signed_word_eqI)
  moreover have "sint c < 2 ^ 63" using sint_lt [of c] by simp
  ultimately have "sint c + 1 < 2 ^ 63" by (simp add: sint_MaxInt)
  moreover have "0 \<le> sint c" using assms(1) by (simp add: word_sle_eq)
  ultimately have "sint (c + 1) = sint c + 1"
    by (simp add: sint_word_ariths signed_take_bit_int_eq_self)
  with \<open>0 \<le> sint c\<close> show ?thesis by (simp add: word_sle_eq)
qed

lemma sle_pred:
  fixes c :: go_int
  assumes "0 <s c"
  shows "0 \<le>s c - 1"
proof -
  have "0 < sint c" using assms by (simp add: word_sless_alt)
  moreover have "sint c < 2 ^ 63" using sint_lt [of c] by simp
  ultimately have "sint (c - 1) = sint c - 1"
    by (simp add: sint_word_ariths signed_take_bit_int_eq_self)
  with \<open>0 < sint c\<close> show ?thesis by (simp add: word_sle_eq)
qed

lemma valid_kind:
  "ReactionLike \<le> B \<and> B \<le> ReactionAngry \<Longrightarrow> \<not> (B \<le> ReactionNone \<or> B > ReactionAngry)"
  by (auto simp: ReactionNone_def ReactionLike_def ReactionAngry_def dest: leD)

lemma ledger_Some_reactions:
  "ledger s postID userID = Some r \<Longrightarrow> reactions s postID \<noteq> None"
  by (auto simp: ledger_def split: option.splits)

lemma SaveReaction_change_eq:
  assumes "posts s postID = Some post" "ledger s postID userID = Some r"
    "ReactionType r \<noteq> B" "ReactionLike \<le> B \<and> B \<le> ReactionAngry"
  shows "SaveReaction s postID userID B now =
    (None, s\<lparr>posts := (posts s)(postID \<mapsto>
                 post\<lparr>Reactions := Some (changed_counts (Reactions post) (ReactionType r) B)\<rparr>),
              reactions := (reactions s)(postID \<mapsto>
                 (ledger s postID)(userID \<mapsto> r\<lparr>ReactionType := B, CreatedAt_R := now\<rparr>))\<rparr>)"
proof -
  have v: "\<not> (B \<le> ReactionNone \<or> B > ReactionAngry)" using assms(4) by (rule valid_kind)
  obtain m where m: "reactions s postID = Some m"
    using ledger_Some_reactions [OF assms(2)] by blast
  have l: "ledger (s\<lparr>posts := P\<rparr>) postID = ledger s postID" for P
    by (simp add: ledger_def)
  show ?thesis
    using assms(1,3) v
    by (simp add: SaveReaction_def m assms(2) Let_def l changed_counts_def count_of_make_if_nil)
qed

lemma count_of_changed_counts:
  assumes "A \<noteq> B"
  shows "count_of (Some (changed_counts rs A B)) k =
    (if k = B then count_of rs B + 1
     else if k = A then (if 0 <s count_of rs A then count_of rs A - 1 else count_of rs A)
     else count_of rs k)"
  using assms
  by (auto simp: changed_counts_def Let_def count_of_def make_if_nil_def split: option.splits)


lemma SaveReaction_first_eq:
  assumes "posts s postID = Some post" "ledger s postID userID = None"
    "ReactionLike \<le> B \<and> B \<le> ReactionAngry"
  shows "SaveReaction s postID userID B now =
    (None, s\<lparr>reactions := (reactions s)(postID \<mapsto>
                 (ledger s postID)(userID \<mapsto>
                    \<lparr>UserID_R = userID, ReactionType = B, CreatedAt_R = now\<rparr>)),
              posts := (posts s)(postID \<mapsto>
                 post\<lparr>Reactions := Some ((make_if_nil (Reactions post))
                          (B \<mapsto> count_of (Reactions post) B + 1))\<rparr>)\<rparr>)"
proof -
  have v: "\<not> (B \<le> ReactionNone \<or> B > ReactionAngry)" using assms(3) by (rule valid_kind)
  show ?thesis
  proof (cases "reactions s postID")
    case None
    then have "ledger s postID = Map.empty" by (simp add: ledger_def)
    with None assms(1) v show ?thesis
      by (simp add: SaveReaction_def Let_def ledger_def count_of_make_if_nil)
  next
    case (Some m)
    then have "ledger s postID = m" by (simp add: ledger_def)
    with Some assms(1,2) v show ?thesis
      by (simp add: SaveReaction_def Let_def ledger_def count_of_make_if_nil)
  qed
qed

lemma SaveReaction_same_eq:
  assumes "posts s postID = Some post" "ledger s postID userID = Some r"
    "ReactionType r = B" "ReactionLike \<le> B \<and> B \<le> ReactionAngry"
  shows "SaveReaction s postID userID B now = (None, s)"
proof -
  have v: "\<not> (B \<le> ReactionNone \<or> B > ReactionAngry)" using assms(4) by (rule valid_kind)
  obtain m where m: "reactions s postID = Some m"
    using ledger_Some_reactions [OF assms(2)] by blast
  show ?thesis
    using assms(1,3) v by (simp add: SaveReaction_def m assms(2))
qed

lemma SaveReaction_error_eq:
  assumes "posts s postID = None \<or> \<not> (ReactionLike \<le> B \<and> B \<le> ReactionAngry)"
  shows "snd (SaveReaction s postID userID B now) = s"
proof (cases "posts s postID")
  case None
  then show ?thesis by (simp add: SaveReaction_def)
next
  case (Some post)
  with assms have "B \<le> ReactionNone \<or> B > ReactionAngry"
    by (auto simp: ReactionNone_def ReactionLike_def ReactionAngry_def not_le word_less_1)
  with Some show ?thesis by (simp add: SaveReaction_def)
qed

lemma SaveReaction_nonneg:
  assumes p: "posts s postID = Some post"
    and nn: "\<And>k. 0 \<le>s count_of (Reactions post) k"
    and mx: "count_of (Reactions post) B \<noteq> MaxInt"
    and p': "posts (snd (SaveReaction s postID userID B now)) postID = Some post'"
  shows "0 \<le>s count_of (Reactions post') k"
proof (cases "ReactionLike \<le> B \<and> B \<le> ReactionAngry")
  case False
  then have "snd (SaveReaction s postID userID B now) = s"
    by (simp add: SaveReaction_error_eq)
  with p p' nn show ?thesis by simp
next
  case v: True
  show ?thesis
  proof (cases "ledger s postID userID")
    case None
    from SaveReaction_first_eq [OF p None v, of now] p'
    have "post' = post\<lparr>Reactions := Some ((make_if_nil (Reactions post))
                          (B \<mapsto> count_of (Reactions post) B + 1))\<rparr>"
      by simp
    then have "count_of (Reactions post') k =
        (if k = B then count_of (Reactions post) B + 1 else count_of (Reactions post) k)"
      by (simp add: count_of_def make_if_nil_def split: option.splits)
    with nn [of k] nn [of B] mx show ?thesis by (simp add: sle_succ)
  next
    case (Some r)
    show ?thesis
    proof (cases "ReactionType r = B")
      case True
      from SaveReaction_same_eq [OF p Some True v, of now] p p' nn show ?thesis by simp
    next
      case False
      from SaveReaction_change_eq [OF p Some False v, of now] p'
      have "post' = post\<lparr>Reactions := Some (changed_counts (Reactions post) (ReactionType r) B)\<rparr>"
        by simp
      then have "count_of (Reactions post') k =
         (if k = B then count_of (Reactions post) B + 1
          else if k = ReactionType r
            then (if 0 <s count_of (Reactions post) (ReactionType r)
                  then count_of (Reactions post) (ReactionType r) - 1
                  else count_of (Reactions post) (ReactionType r))
          else count_of (Reactions post) k)"
        using False by (simp add: count_of_changed_counts)
      with nn [of k] nn [of B] nn [of "ReactionType r"] mx show ?thesis
        by (simp add: sle_succ sle_pred)
    qed
  qed
qed

lemma DeleteReaction_nonneg:
  assumes p: "posts s postID = Some post"
    and nn: "\<And>k. 0 \<le>s count_of (Reactions post) k"
    and p': "posts (snd (DeleteReaction s postID userID B)) postID = Some post'"
  shows "0 \<le>s count_of (Reactions post') k"
proof -
  have "post' = post \<or>
    (\<exists>m. Reactions post = Some m \<and> 0 <s count_of (Some m) B \<and>
       post' = post\<lparr>Reactions := Some (m(B \<mapsto> count_of (Some m) B - 1))\<rparr>)"
    using p p' by (auto simp: DeleteReaction_def Let_def split: option.splits if_splits)
  then show ?thesis
  proof
    assume "post' = post"
    with nn show ?thesis by simp
  next
    assume "\<exists>m. Reactions post = Some m \<and> 0 <s count_of (Some m) B \<and>
       post' = post\<lparr>Reactions := Some (m(B \<mapsto> count_of (Some m) B - 1))\<rparr>"
    then obtain m where m: "Reactions post = Some m" "0 <s count_of (Some m) B"
      "post' = post\<lparr>Reactions := Some (m(B \<mapsto> count_of (Some m) B - 1))\<rparr>" by blast
    then have "count_of (Reactions post') k =
       (if k = B then count_of (Some m) B - 1 else count_of (Reactions post) k)"
      by (simp add: count_of_def)
    with nn [of k] m(2) show ?thesis by (simp add: sle_pred)
  qed
qed

lemma reset_counts_eq:
  "reset_counts = \<lparr>posts = [''p1'' \<mapsto> post1],
     reactions = [''p1'' \<mapsto> [''u2'' \<mapsto>
       \<lparr>UserID_R = ''u2'', ReactionType = ReactionLike, CreatedAt_R = 5\<rparr>]],
     userPosts = [''u1'' \<mapsto> [''p1'']],
     tagPosts = [''test'' \<mapsto> [''p1''], ''golang'' \<mapsto> [''p1'']]\<rparr>"
  by (simp add: reset_counts_def store1r_eq SavePost_def post1_def
      append_id_def remove_id_def add_id_if_absent_def index_of_def)

text \<open>
  C4, as the claim states it, fails.  User u2 likes post p1; the post is then saved again
  with the counts it was created with (none), which leaves the ledger as it is.  The user
  has the reaction Like and the post's count of Like is 0.  \<^verbatim>\<open>SaveReaction\<close> with Love
  leaves the count of Like at 0, since a count that is not positive is not decremented, and
  sets the count of Love to 1.
\<close>

theorem SaveReaction_no_decrement_counterexample:
  "map_option ReactionType (ledger reset_counts ''p1'' ''u2'') = Some ReactionLike \<and>
   map_option (\<lambda>p. count_of (Reactions p) ReactionLike) (posts reset_counts ''p1'') = Some 0 \<and>
   fst (SaveReaction reset_counts ''p1'' ''u2'' ReactionLove 6) = None \<and>
   map_option (\<lambda>p. count_of (Reactions p) ReactionLike)
     (posts (snd (SaveReaction reset_counts ''p1'' ''u2'' ReactionLove 6)) ''p1'') = Some 0 \<and>
   map_option (\<lambda>p. count_of (Reactions p) ReactionLove)
     (posts (snd (SaveReaction reset_counts ''p1'' ''u2'' ReactionLove 6)) ''p1'') = Some 1"
  by (simp add: reset_counts_eq SaveReaction_def ledger_def make_if_nil_def count_of_def
      ReactionNone_def ReactionLike_def ReactionLove_def ReactionAngry_def word_sless_alt)
     (simp add: post1_def)

text \<open>
  C4, amended.  When the user has a reaction of kind \<open>A\<close> on the post, \<^verbatim>\<open>SaveReaction\<close> with
  another valid kind \<open>B\<close> succeeds and, in the one call, increments the count of \<open>B\<close> by 1,
  decrements the count of \<open>A\<close> by 1 if that count is positive and leaves it otherwise,
  leaves every other count, and records \<open>B\<close> as the user's reaction.  Counts that are all
  non-negative stay so through \<^verbatim>\<open>SaveReaction\<close> (unless the count it increments is the
  largest \<^verbatim>\<open>int\<close>) and through \<^verbatim>\<open>DeleteReaction\<close>.
\<close>

theorem SaveReaction_change:
  "(posts s postID = Some post \<and> ledger s postID userID = Some r \<and> ReactionType r = A \<and>
    A \<noteq> B \<and> ReactionLike \<le> B \<and> B \<le> ReactionAngry \<longrightarrow>
      (\<exists>post'.
         fst (SaveReaction s postID userID B now) = None \<and>
         posts (snd (SaveReaction s postID userID B now)) postID = Some post' \<and>
         count_of (Reactions post') B = count_of (Reactions post) B + 1 \<and>
         count_of (Reactions post') A =
           (if 0 <s count_of (Reactions post) A then count_of (Reactions post) A - 1
            else count_of (Reactions post) A) \<and>
         (\<forall>k. k \<noteq> A \<and> k \<noteq> B \<longrightarrow> count_of (Reactions post') k = count_of (Reactions post) k) \<and>
         ledger (snd (SaveReaction s postID userID B now)) postID userID =
           Some (r\<lparr>ReactionType := B, CreatedAt_R := now\<rparr>))) \<and>
   (posts s postID = Some post \<and> (\<forall>k. 0 \<le>s count_of (Reactions post) k) \<and>
    count_of (Reactions post) B \<noteq> MaxInt \<and>
    posts (snd (SaveReaction s postID userID B now)) postID = Some post_s \<longrightarrow>
      (\<forall>k. 0 \<le>s count_of (Reactions post_s) k)) \<and>
   (posts s postID = Some post \<and> (\<forall>k. 0 \<le>s count_of (Reactions post) k) \<and>
    posts (snd (DeleteReaction s postID userID B)) postID = Some post_d \<longrightarrow>
      (\<forall>k. 0 \<le>s count_of (Reactions post_d) k))"
proof (intro conjI impI)
  assume a: "posts s postID = Some post \<and> ledger s postID userID = Some r \<and> ReactionType r = A \<and>
    A \<noteq> B \<and> ReactionLike \<le> B \<and> B \<le> ReactionAngry"
  then have p: "posts s postID = Some post" and l: "ledger s postID userID = Some r"
    and ne: "ReactionType r \<noteq> B" and v: "ReactionLike \<le> B \<and> B \<le> ReactionAngry"
    and A: "ReactionType r = A" and AB: "A \<noteq> B"
    by simp_all
  let ?post' = "post\<lparr>Reactions := Some (changed_counts (Reactions post) A B)\<rparr>"
  note eq = SaveReaction_change_eq [OF p l ne v, of now, unfolded A]
  have "fst (SaveReaction s postID userID B now) = None"
    and "posts (snd (SaveReaction s postID userID B now)) postID = Some ?post'"
    and "ledger (snd (SaveReaction s postID userID B now)) postID userID =
           Some (r\<lparr>ReactionType := B, CreatedAt_R := now\<rparr>)"
    by (simp_all add: eq ledger_def)
  moreover have "count_of (Reactions ?post') B = count_of (Reactions post) B + 1"
    and "count_of (Reactions ?post') A =
           (if 0 <s count_of (Reactions post) A then count_of (Reactions post) A - 1
            else count_of (Reactions post) A)"
    and "\<forall>k. k \<noteq> A \<and> k \<noteq> B \<longrightarrow> count_of (Reactions ?post') k = count_of (Reactions post) k"
    using AB by (simp_all add: count_of_changed_counts)
  ultimately show "\<exists>post'.
         fst (SaveReaction s postID userID B now) = None \<and>
         posts (snd (SaveReaction s postID userID B now)) postID = Some post' \<and>
         count_of (Reactions post') B = count_of (Reactions post) B + 1 \<and>
         count_of (Reactions post') A =
           (if 0 <s count_of (Reactions post) A then count_of (Reactions post) A - 1
            else count_of (Reactions post) A) \<and>
         (\<forall>k. k \<noteq> A \<and> k \<noteq> B \<longrightarrow> count_of (Reactions post') k = count_of (Reactions post) k) \<and>
         ledger (snd (SaveReaction s postID userID B now)) postID userID =
           Some (r\<lparr>ReactionType := B, CreatedAt_R := now\<rparr>)"
    by blast
next
  assume "posts s postID = Some post \<and> (\<forall>k. 0 \<le>s count_of (Reactions post) k) \<and>
    count_of (Reactions post) B \<noteq> MaxInt \<and>
    posts (snd (SaveReaction s postID userID B now)) postID = Some post_s"
  then show "\<forall>k. 0 \<le>s count_of (Reactions post_s) k"
    by (blast intro: SaveReaction_nonneg)
next
  assume "posts s postID = Some post \<and> (\<forall>k. 0 \<le>s count_of (Reactions post) k) \<and>
    posts (snd (DeleteReaction s postID userID B)) postID = Some post_d"
  then show "\<forall>k. 0 \<le>s count_of (Reactions post_d) k"
    by (blast intro: DeleteReaction_nonneg)
qed

theorem SaveReaction_change_witness:
  "map_option ReactionType (ledger store1r ''p1'' ''u2'') = Some ReactionLike \<and>
   map_option (\<lambda>p. count_of (Reactions p) ReactionLike) (posts store1r ''p1'') = Some 1 \<and>
   map_option (\<lambda>p. count_of (Reactions p) ReactionLove) (posts store1r ''p1'') = Some 0 \<and>
   fst (SaveReaction store1r ''p1'' ''u2'' ReactionLove 6) = None \<and>
   map_option (\<lambda>p. count_of (Reactions p) ReactionLike)
     (posts (snd (SaveReaction store1r ''p1'' ''u2'' ReactionLove 6)) ''p1'') = Some 0 \<and>
   map_option (\<lambda>p. count_of (Reactions p) ReactionLove)
     (posts (snd (SaveReaction store1r ''p1'' ''u2'' ReactionLove 6)) ''p1'') = Some 1 \<and>
   map_option ReactionType
     (ledger (snd (SaveReaction store1r ''p1'' ''u2'' ReactionLove 6)) ''p1'' ''u2'') = Some ReactionLove \<and>
   (\<forall>k. 0 \<le>s count_of (Some [ReactionLike \<mapsto> 0, ReactionLove \<mapsto> 1]) k) \<and>
   (\<forall>k. 0 \<le>s count_of (Some [ReactionLike \<mapsto> 0]) k)"
proof -
  let ?post = "post1\<lparr>Reactions := Some [ReactionLike \<mapsto> 1]\<rparr>"
  let ?r = "\<lparr>UserID_R = ''u2'', ReactionType = ReactionLike, CreatedAt_R = 5\<rparr>"
  have p: "posts store1r ''p1'' = Some ?post" by (simp add: store1r_eq)
  have l: "ledger store1r ''p1'' ''u2'' = Some ?r" by (simp add: store1r_eq ledger_def)
  have c: "count_of (Reactions ?post) ReactionLike = 1" "count_of (Reactions ?post) ReactionLove = 0"
    by (simp_all add: count_of_def ReactionLike_def ReactionLove_def)
  have v: "ReactionLike \<noteq> ReactionLove" "ReactionLike \<le> ReactionLove" "ReactionLove \<le> ReactionAngry"
    by (simp_all add: ReactionLike_def ReactionLove_def ReactionAngry_def)
  have "\<exists>post'.
         fst (SaveReaction store1r ''p1'' ''u2'' ReactionLove 6) = None \<and>
         posts (snd (SaveReaction store1r ''p1'' ''u2'' ReactionLove 6)) ''p1'' = Some post' \<and>
         count_of (Reactions post') ReactionLove = count_of (Reactions ?post) ReactionLove + 1 \<and>
         count_of (Reactions post') ReactionLike =
           (if 0 <s count_of (Reactions ?post) ReactionLike
            then count_of (Reactions ?post) ReactionLike - 1
            else count_of (Reactions ?post) ReactionLike) \<and>
         (\<forall>k. k \<noteq> ReactionLike \<and> k \<noteq> ReactionLove \<longrightarrow>
            count_of (Reactions post') k = count_of (Reactions ?post) k) \<and>
         ledger (snd (SaveReaction store1r ''p1'' ''u2'' ReactionLove 6)) ''p1'' ''u2'' =
           Some (?r\<lparr>ReactionType := ReactionLove, CreatedAt_R := 6\<rparr>)"
    using SaveReaction_change [where s = store1r and postID = "''p1''" and userID = "''u2''"
      and post = ?post and r = ?r and A = ReactionLike and B = ReactionLove and now = 6,
      THEN conjunct1] p l v
    by (simp del: Post.simps)
  then obtain post' where
    "fst (SaveReaction store1r ''p1'' ''u2'' ReactionLove 6) = None"
    "posts (snd (SaveReaction store1r ''p1'' ''u2'' ReactionLove 6)) ''p1'' = Some post'"
    "count_of (Reactions post') ReactionLove = count_of (Reactions ?post) ReactionLove + 1"
    "count_of (Reactions post') ReactionLike =
       (if 0 <s count_of (Reactions ?post) ReactionLike
        then count_of (Reactions ?post) ReactionLike - 1
        else count_of (Reactions ?post) ReactionLike)"
    "ledger (snd (SaveReaction store1r ''p1'' ''u2'' ReactionLove 6)) ''p1'' ''u2'' =
       Some (?r\<lparr>ReactionType := ReactionLove, CreatedAt_R := 6\<rparr>)"
    by blast
  with p l c have 1:
    "map_option ReactionType (ledger store1r ''p1'' ''u2'') = Some ReactionLike \<and>
     map_option (\<lambda>p. count_of (Reactions p) ReactionLike) (posts store1r ''p1'') = Some 1 \<and>
     map_option (\<lambda>p. count_of (Reactions p) ReactionLove) (posts store1r ''p1'') = Some 0 \<and>
     fst (SaveReaction store1r ''p1'' ''u2'' ReactionLove 6) = None \<and>
     map_option (\<lambda>p. count_of (Reactions p) ReactionLike)
       (posts (snd (SaveReaction store1r ''p1'' ''u2'' ReactionLove 6)) ''p1'') = Some 0 \<and>
     map_option (\<lambda>p. count_of (Reactions p) ReactionLove)
       (posts (snd (SaveReaction store1r ''p1'' ''u2'' ReactionLove 6)) ''p1'') = Some 1 \<and>
     map_option ReactionType
       (ledger (snd (SaveReaction store1r ''p1'' ''u2'' ReactionLove 6)) ''p1'' ''u2'') = Some ReactionLove"
    by (simp add: word_sless_alt)
  have nn: "\<forall>k. 0 \<le>s count_of (Reactions ?post) k"
    by (simp add: count_of_def word_sle_eq)
  have mx: "count_of (Reactions ?post) ReactionLove \<noteq> MaxInt"
    by (simp add: count_of_def MaxInt_def ReactionLike_def ReactionLove_def)
  have ps: "posts (snd (SaveReaction store1r ''p1'' ''u2'' ReactionLove 6)) ''p1'' =
     Some (post1\<lparr>Reactions := Some [ReactionLike \<mapsto> 0, ReactionLove \<mapsto> 1]\<rparr>)"
    by (simp add: store1r_eq SaveReaction_def ledger_def make_if_nil_def count_of_def
        ReactionNone_def ReactionLike_def ReactionLove_def ReactionAngry_def word_sless_alt)
  have pd: "posts (snd (DeleteReaction store1r ''p1'' ''u2'' ReactionLike)) ''p1'' =
     Some (post1\<lparr>Reactions := Some [ReactionLike \<mapsto> 0]\<rparr>)"
    by (simp add: store1r_eq DeleteReaction_def count_of_def ReactionLike_def word_sless_alt)
  have 2: "\<forall>k. 0 \<le>s count_of (Some [ReactionLike \<mapsto> 0, ReactionLove \<mapsto> 1]) k"
    using SaveReaction_change [where s = store1r and postID = "''p1''" and userID = "''u2''"
      and post = ?post and B = ReactionLove and now = 6
      and post_s = "post1\<lparr>Reactions := Some [ReactionLike \<mapsto> 0, ReactionLove \<mapsto> 1]\<rparr>",
      THEN conjunct2, THEN conjunct1] p nn mx ps
    by simp
  have 3: "\<forall>k. 0 \<le>s count_of (Some [ReactionLike \<mapsto> 0]) k"
    using SaveReaction_change [where s = store1r and postID = "''p1''" and userID = "''u2''"
      and post = ?post and B = ReactionLike
      and post_d = "post1\<lparr>Reactions := Some [ReactionLike \<mapsto> 0]\<rparr>",
      THEN conjunct2, THEN conjunct2] p nn pd
    by simp
  from 1 2 3 show ?thesis by blast
qed

section \<open>The indices follow the posts\<close>

lemma listed_empty [simp]: "listed Map.empty k pid = 0"
  by (simp add: listed_def index_of_def)


















section \<open>Reaction counts and the ledger\<close>










lemma int_max_len: "int max_len = 2 ^ 63 - 1"
  unfolding max_len_def by (subst of_nat_diff) simp_all

lemma sint_of_nat_go:
  assumes "n \<le> max_len"
  shows "sint (of_nat n :: go_int) = int n"
proof -
  have "int n \<le> int max_len" using assms by (simp only: of_nat_le_iff)
  then have "int n < 2 ^ 63" by (simp add: int_max_len)
  then have "signed_take_bit 63 (int n) = int n"
    by (intro signed_take_bit_int_eq_self) simp_all
  then show ?thesis by (simp add: signed_of_nat)
qed

lemma sless_of_nat_go:
  assumes "0 < n" "n \<le> max_len"
  shows "0 <s (of_nat n :: go_int)"
  using assms by (simp add: word_sless_alt sint_of_nat_go)


lemma of_nat_neq_0_go:
  assumes "0 < n" "n \<le> max_len"
  shows "(of_nat n :: go_int) \<noteq> 0"
  using sless_of_nat_go [OF assms] by (auto simp: word_sless_alt)





lemma ledger_upd:
  "ledger (s\<lparr>reactions := (reactions s)(pid \<mapsto> m)\<rparr>) pid' = (if pid' = pid then m else ledger s pid')"
  by (simp add: ledger_def)

lemma ledger_del:
  "ledger (s\<lparr>reactions := (reactions s)(pid := None)\<rparr>) pid' =
     (if pid' = pid then Map.empty else ledger s pid')"
  by (simp add: ledger_def)
























end
